theory Spec2Isabelle
  imports Main
begin

section \<open>The plugin, middleware and hook runtime of \<^verbatim>\<open>src/index.ts\<close>\<close>

text \<open>
  The runtime is one closure over one mutable \<^verbatim>\<open>context\<close> object. Its operations
  (\<^verbatim>\<open>use\<close>, \<^verbatim>\<open>useMiddleware\<close>, \<^verbatim>\<open>applyMiddlewares\<close>, \<^verbatim>\<open>hook\<close>, \<^verbatim>\<open>callHook\<close>,
  \<^verbatim>\<open>callHookSerial\<close>, \<^verbatim>\<open>getPlugin\<close>, \<^verbatim>\<open>extend\<close>) are modelled as functions that take
  the state of the world and return an outcome together with the new state. An exception is
  the outcome \<open>Inl e\<close>; a method that returns \<^verbatim>\<open>this\<close> returns \<open>Inr ()\<close>.
\<close>

subsection \<open>User callbacks\<close>

text \<open>
  Middlewares, hooks and \<^verbatim>\<open>install\<close> routines are JavaScript functions supplied by the
  user. The state they may change (the context) holds such functions again, so a callback
  cannot be a HOL function over the state. A callback body is therefore the tree of the
  interactions it has with the runtime:
  \<^item> \<open>Return v\<close>: return \<open>v\<close>;
  \<^item> \<open>Throw e\<close>: throw \<open>e\<close>;
  \<^item> \<open>Effect l k\<close>: a side effect of the user's own that an observer can see (a call
    counter, a log line), labelled \<open>l\<close>, then \<open>k\<close>;
  \<^item> \<open>Next d k\<close>: call the continuation \<^verbatim>\<open>next(d)\<close>; \<open>k\<close> receives what the call returned
    (\<open>Inr r\<close>) or threw (\<open>Inl e\<close>, a \<^verbatim>\<open>try/catch\<close> around the call), and goes on;
  \<^item> \<open>UseMiddleware m k\<close>, \<open>Hook key h k\<close>, \<open>Extend key v k\<close>: call \<^verbatim>\<open>useMiddleware(m)\<close>,
    \<^verbatim>\<open>hook(key, h)\<close>, \<^verbatim>\<open>extend(key, v)\<close> on the system, then \<open>k\<close>; an exception of the
    call leaves the callback. A callback reaches the system through the closure it was
    written in (\<^verbatim>\<open>const app = createPluginSystem(); app.use({ install() { app.extend(...) } })\<close>);
  \<^item> \<open>PluginsSet key n i k\<close>, \<open>PluginsDelete key k\<close>, \<open>PluginsClear k\<close>: a write of the
    registry itself, \<^verbatim>\<open>context.plugins.set(key, { name: n, install: i })\<close>,
    \<^verbatim>\<open>context.plugins.delete(key)\<close>, \<^verbatim>\<open>context.plugins.clear()\<close>, then \<open>k\<close>: \<^verbatim>\<open>install\<close>
    is handed the context, and \<^verbatim>\<open>plugins\<close> is a \<^verbatim>\<open>Map\<close> that nothing guards;
  \<^item> \<open>Assign key v k\<close>, \<open>Delete key k\<close>: a write of the context object itself,
    \<^verbatim>\<open>context[key] = v\<close> and \<^verbatim>\<open>delete context[key]\<close>, then \<open>k\<close>.
  Writes inside the array \<^verbatim>\<open>middlewares\<close> and the \<^verbatim>\<open>Map\<close> \<^verbatim>\<open>hooks\<close> other than through
  \<^verbatim>\<open>useMiddleware\<close> and \<^verbatim>\<open>hook\<close>, and calls of the methods that run callbacks
  (\<^verbatim>\<open>use\<close>, \<^verbatim>\<open>applyMiddlewares\<close>, \<^verbatim>\<open>callHook\<close>, \<^verbatim>\<open>callHookSerial\<close>) from inside a
  callback, are not modelled. The context stays an ordinary extensible object whose own
  properties are writable data properties: no callback freezes it or redefines a
  property with \<^verbatim>\<open>Object.defineProperty\<close>, and \<^verbatim>\<open>Object.prototype\<close> is the standard one.

  Values of the program (\<^verbatim>\<open>any\<close>) are the type parameter \<open>'v\<close>. Where the code
  assigns a value to a property of the context, JavaScript tells a primitive value
  (\<^verbatim>\<open>undefined\<close>, a boolean, a number, a string, a symbol) from \<^verbatim>\<open>null\<close> and from an
  object (a function is one): the value \<^verbatim>\<open>extend\<close> is given says which it is. An
  object given as a value is one that does not inherit from the context.
\<close>

type_synonym label = string

datatype 'v exn = TypeError | ReferenceError | Thrown 'v

datatype 'v jsval = Primitive 'v | Null | Object 'v

datatype 'v prog =
    Return 'v
  | Throw "'v exn"
  | Effect label "'v prog"
  | Next 'v "'v exn + 'v \<Rightarrow> 'v prog"
  | UseMiddleware "'v \<Rightarrow> 'v prog" "'v prog"
  | Hook string "'v list \<Rightarrow> 'v prog" "'v prog"
  | Extend string "'v jsval" "'v prog"
  | PluginsSet string string "'v list \<Rightarrow> 'v prog" "'v prog"
  | PluginsDelete string "'v prog"
  | PluginsClear "'v prog"
  | Assign string "'v jsval" "'v prog"
  | Delete string "'v prog"

text \<open>
  \<^verbatim>\<open>type Middleware<T, R> = (data: T, next: (data: T) => R) => R\<close>: the continuation is
  the \<open>Next\<close> node of the body. \<^verbatim>\<open>type Hook = (...args: any[]) => any\<close>.
\<close>

type_synonym 'v middleware = "'v \<Rightarrow> 'v prog"

type_synonym 'v hook = "'v list \<Rightarrow> 'v prog"

text \<open>
  \<^verbatim>\<open>interface Plugin { name: string; install: (app, ...options) => void }\<close>. The context
  argument of \<^verbatim>\<open>install\<close> is the state the body runs in; the value the body returns is
  dropped (\<^verbatim>\<open>void\<close>).
\<close>

record 'v plugin =
  name :: string
  install :: "'v list \<Rightarrow> 'v prog"

subsection \<open>The context\<close>

text \<open>
  \<^verbatim>\<open>PluginContext\<close> is a plain object with the index signature \<^verbatim>\<open>[key: string]: any\<close>,
  created by an object literal with the four properties \<^verbatim>\<open>plugins\<close>, \<^verbatim>\<open>middlewares\<close>,
  \<^verbatim>\<open>hooks\<close> and \<^verbatim>\<open>options\<close>. Its own properties are a dictionary from names to values.
  \<^verbatim>\<open>extend\<close> writes any property, also one of these four, so a property holds either the
  structure the runtime put there or a value of the user's (\<open>Value v\<close>). Calling a method
  of the structure on such a value (\<^verbatim>\<open>context.plugins.has\<close> on a number, say) throws a
  \<^verbatim>\<open>TypeError\<close>; the model reads an absent property the same way.

  An object literal has the prototype \<^verbatim>\<open>Object.prototype\<close>, and \<^verbatim>\<open>name in context\<close> and
  \<^verbatim>\<open>context[name] = value\<close> follow the prototype chain. The properties of
  \<^verbatim>\<open>Object.prototype\<close> are those of ECMAScript (sections 20.1.3 and B.2.2): writable
  data properties, and the accessor \<^verbatim>\<open>__proto__\<close>, whose setter ignores a primitive value
  and makes an object or \<^verbatim>\<open>null\<close> the prototype of the context. After that, what the
  context inherits depends on the object it was given: the model records the new
  prototype and from then on knows the own properties only.

  The world is the context (its own properties and its prototype), the lines written by
  \<^verbatim>\<open>console.warn\<close>, and the trace of the user's observable effects.
\<close>

datatype 'v slot =
    Plugins "string \<rightharpoonup> 'v plugin"
  | Middlewares "'v middleware list"
  | Hooks "string \<rightharpoonup> 'v hook list"
  | Value "'v jsval"

datatype 'v proto = ObjectPrototype | Replaced "'v jsval"

record 'v world =
  ctx :: "string \<rightharpoonup> 'v slot"
  proto :: "'v proto"
  warnings :: "string list"
  effects :: "label list"

definition object_prototype_names :: "string list" where
  "object_prototype_names =
     [''constructor'', ''hasOwnProperty'', ''isPrototypeOf'', ''propertyIsEnumerable'',
      ''toLocaleString'', ''toString'', ''valueOf'', ''__proto__'',
      ''__defineGetter__'', ''__defineSetter__'', ''__lookupGetter__'', ''__lookupSetter__'']"

definition inherited :: "'v world \<Rightarrow> string \<Rightarrow> bool" where
  "inherited s key \<longleftrightarrow> proto s = ObjectPrototype \<and> key \<in> set object_prototype_names"

text \<open>\<^verbatim>\<open>name in context\<close>\<close>

definition in_context :: "string \<Rightarrow> 'v world \<Rightarrow> bool" where
  "in_context key s \<longleftrightarrow> ctx s key \<noteq> None \<or> inherited s key"



definition warn :: "string \<Rightarrow> 'v world \<Rightarrow> 'v world" where
  "warn msg s = s\<lparr>warnings := warnings s @ [msg]\<rparr>"

definition already_registered :: "string \<Rightarrow> string" where
  \<open>already_registered key = ''Plugin "'' @ key @ ''" is already registered.''\<close>

definition already_exists :: "string \<Rightarrow> string" where
  \<open>already_exists key =
     ''API "'' @ key @ ''" already exists. Overwriting it may cause unexpected behavior.''\<close>

text \<open>\<^verbatim>\<open>createPluginSystem(options)\<close>, in a world where nothing has been logged yet.\<close>

definition createPluginSystem :: "'v \<Rightarrow> 'v world" where
  "createPluginSystem options =
     \<lparr>ctx = [''plugins'' \<mapsto> Plugins Map.empty,
             ''middlewares'' \<mapsto> Middlewares [],
             ''hooks'' \<mapsto> Hooks Map.empty,
             ''options'' \<mapsto> Value (Object options)],
      proto = ObjectPrototype,
      warnings = [],
      effects = []\<rparr>"

subsection \<open>Registration\<close>

text \<open>\<^verbatim>\<open>context.middlewares.push(middleware); return this\<close>\<close>

definition useMiddleware :: "'v middleware \<Rightarrow> 'v world \<Rightarrow> ('v exn + unit) \<times> 'v world" where
  "useMiddleware middleware s =
     (case ctx s ''middlewares'' of
        Some (Middlewares ms) \<Rightarrow>
          (Inr (), s\<lparr>ctx := (ctx s)(''middlewares'' \<mapsto> Middlewares (ms @ [middleware]))\<rparr>)
      | _ \<Rightarrow> (Inl TypeError, s))"

text \<open>
  \<^verbatim>\<open>if (!context.hooks.has(name)) context.hooks.set(name, []);\<close>
  \<^verbatim>\<open>context.hooks.get(name)!.push(hook); return this\<close>
\<close>

definition hook :: "string \<Rightarrow> 'v hook \<Rightarrow> 'v world \<Rightarrow> ('v exn + unit) \<times> 'v world" where
  "hook key h s =
     (case ctx s ''hooks'' of
        Some (Hooks hm) \<Rightarrow>
          (let hm1 = (if hm key = None then hm(key \<mapsto> []) else hm)
           in case hm1 key of
                Some hs \<Rightarrow> (Inr (), s\<lparr>ctx := (ctx s)(''hooks'' \<mapsto> Hooks (hm1(key \<mapsto> hs @ [h])))\<rparr>)
              | None \<Rightarrow> (Inl TypeError, s))
      | _ \<Rightarrow> (Inl TypeError, s))"

text \<open>
  \<^verbatim>\<open>context[name] = value\<close>: the assignment writes the own property, but for
  \<^verbatim>\<open>__proto__\<close> while the context inherits the accessor and has no own property of that
  name: then the setter runs.
\<close>

definition assign :: "string \<Rightarrow> 'v jsval \<Rightarrow> 'v world \<Rightarrow> 'v world" where
  "assign key v s =
     (if key = ''__proto__'' \<and> inherited s key \<and> ctx s key = None
      then (case v of Primitive p \<Rightarrow> s | _ \<Rightarrow> s\<lparr>proto := Replaced v\<rparr>)
      else s\<lparr>ctx := (ctx s)(key \<mapsto> Value v)\<rparr>)"

text \<open>
  \<^verbatim>\<open>if (name in context) console.warn(...); context[name] = value; return this\<close>
\<close>

definition extend :: "string \<Rightarrow> 'v jsval \<Rightarrow> 'v world \<Rightarrow> ('v exn + unit) \<times> 'v world" where
  "extend key v s =
     (let s1 = (if in_context key s then warn (already_exists key) s else s)
      in (Inr (), assign key v s1))"

text \<open>
  A method of the \<^verbatim>\<open>Map\<close> \<^verbatim>\<open>context.plugins\<close> that writes it, called from a callback.
\<close>

definition update_plugins ::
  "((string \<rightharpoonup> 'v plugin) \<Rightarrow> (string \<rightharpoonup> 'v plugin)) \<Rightarrow> 'v world \<Rightarrow> ('v exn + unit) \<times> 'v world" where
  "update_plugins f s =
     (case ctx s ''plugins'' of
        Some (Plugins reg) \<Rightarrow> (Inr (), s\<lparr>ctx := (ctx s)(''plugins'' \<mapsto> Plugins (f reg))\<rparr>)
      | _ \<Rightarrow> (Inl TypeError, s))"

subsection \<open>Running a callback\<close>

text \<open>
  \<open>run nxt p s\<close> runs the body \<open>p\<close> in the world \<open>s\<close>; \<open>nxt\<close> is what a call of the
  continuation does. A hook and an \<^verbatim>\<open>install\<close> routine are called without a continuation:
  there a \<open>Next\<close> node is a call of a name that is not bound.
\<close>

primrec run :: "('v \<Rightarrow> 'v world \<Rightarrow> ('v exn + 'v) \<times> 'v world) \<Rightarrow> 'v prog \<Rightarrow> 'v world
    \<Rightarrow> ('v exn + 'v) \<times> 'v world" where
  "run nxt (Return v) s = (Inr v, s)"
| "run nxt (Throw e) s = (Inl e, s)"
| "run nxt (Effect l k) s = run nxt k (s\<lparr>effects := effects s @ [l]\<rparr>)"
| "run nxt (Next d k) s = (case nxt d s of (out, s') \<Rightarrow> run nxt (k out) s')"
| "run nxt (UseMiddleware m k) s =
     (case useMiddleware m s of (Inl e, s') \<Rightarrow> (Inl e, s') | (Inr u, s') \<Rightarrow> run nxt k s')"
| "run nxt (Hook key h k) s =
     (case hook key h s of (Inl e, s') \<Rightarrow> (Inl e, s') | (Inr u, s') \<Rightarrow> run nxt k s')"
| "run nxt (Extend key v k) s =
     (case extend key v s of (Inl e, s') \<Rightarrow> (Inl e, s') | (Inr u, s') \<Rightarrow> run nxt k s')"
| "run nxt (PluginsSet key n i k) s =
     (case update_plugins (\<lambda>reg. reg(key \<mapsto> \<lparr>name = n, install = i\<rparr>)) s of
        (Inl e, s') \<Rightarrow> (Inl e, s') | (Inr u, s') \<Rightarrow> run nxt k s')"
| "run nxt (PluginsDelete key k) s =
     (case update_plugins (\<lambda>reg. reg(key := None)) s of
        (Inl e, s') \<Rightarrow> (Inl e, s') | (Inr u, s') \<Rightarrow> run nxt k s')"
| "run nxt (PluginsClear k) s =
     (case update_plugins (\<lambda>reg. Map.empty) s of
        (Inl e, s') \<Rightarrow> (Inl e, s') | (Inr u, s') \<Rightarrow> run nxt k s')"
| "run nxt (Assign key v k) s = run nxt k (assign key v s)"
| "run nxt (Delete key k) s = run nxt k (s\<lparr>ctx := (ctx s)(key := None)\<rparr>)"

definition no_next :: "'v \<Rightarrow> 'v world \<Rightarrow> ('v exn + 'v) \<times> 'v world" where
  "no_next d s = (Inl ReferenceError, s)"

subsection \<open>Plugins\<close>

text \<open>
  \<^verbatim>\<open>if (context.plugins.has(plugin.name)) { console.warn(...); return this; }\<close>
  \<^verbatim>\<open>context.plugins.set(plugin.name, plugin); plugin.install(context, ...options);\<close>
  \<^verbatim>\<open>return this\<close>
\<close>

definition use :: "'v plugin \<Rightarrow> 'v list \<Rightarrow> 'v world \<Rightarrow> ('v exn + unit) \<times> 'v world" where
  "use plugin options s =
     (case ctx s ''plugins'' of
        Some (Plugins reg) \<Rightarrow>
          (if reg (name plugin) \<noteq> None
           then (Inr (), warn (already_registered (name plugin)) s)
           else (let s1 = s\<lparr>ctx := (ctx s)(''plugins'' \<mapsto> Plugins (reg(name plugin \<mapsto> plugin)))\<rparr>
                 in case run no_next (install plugin options) s1 of
                      (Inl e, s2) \<Rightarrow> (Inl e, s2)
                    | (Inr r, s2) \<Rightarrow> (Inr (), s2)))
      | _ \<Rightarrow> (Inl TypeError, s))"

text \<open>\<^verbatim>\<open>return context.plugins.get(name)\<close>: \<^verbatim>\<open>undefined\<close> is \<open>None\<close>.\<close>

definition getPlugin :: "string \<Rightarrow> 'v world \<Rightarrow> 'v exn + 'v plugin option" where
  "getPlugin key s =
     (case ctx s ''plugins'' of
        Some (Plugins reg) \<Rightarrow> Inr (reg key)
      | _ \<Rightarrow> Inl TypeError)"

subsection \<open>The middleware pipeline\<close>

text \<open>
  \<^verbatim>\<open>function dispatch(index, data) {\<close>
  \<^verbatim>\<open>  if (index >= middlewares.length) return data;\<close>
  \<^verbatim>\<open>  const middleware = middlewares[index];\<close>
  \<^verbatim>\<open>  return middleware(data, (nextData) => dispatch(index + 1, nextData)); }\<close>
  The array \<^verbatim>\<open>middlewares\<close> that the closure captures is the first argument.
\<close>

function dispatch :: "'v middleware list \<Rightarrow> nat \<Rightarrow> 'v \<Rightarrow> 'v world \<Rightarrow> ('v exn + 'v) \<times> 'v world" where
  "dispatch middlewares index data s =
     (if index \<ge> length middlewares then (Inr data, s)
      else (let middleware = middlewares ! index
            in run (\<lambda>nextData s'. dispatch middlewares (index + 1) nextData s') (middleware data) s))"
  by pat_completeness auto
termination
  by (relation "measure (\<lambda>(middlewares, index, data, s). length middlewares - index)") auto

declare dispatch.simps [simp del]

text \<open>
  \<^verbatim>\<open>const middlewares = [...context.middlewares]; return dispatch(0, initialData)\<close>
\<close>

definition applyMiddlewares :: "'v \<Rightarrow> 'v world \<Rightarrow> ('v exn + 'v) \<times> 'v world" where
  "applyMiddlewares initialData s =
     (case ctx s ''middlewares'' of
        Some (Middlewares ms) \<Rightarrow> (let middlewares = ms in dispatch middlewares 0 initialData s)
      | _ \<Rightarrow> (Inl TypeError, s))"

subsection \<open>Hooks\<close>





subsection \<open>Function composition\<close>

text \<open>
  \<^verbatim>\<open>if (fns.length === 0) return (arg) => arg;\<close>
  \<^verbatim>\<open>if (fns.length === 1) return fns[0];\<close>
  \<^verbatim>\<open>return fns.reduce((a, b) => (arg) => b(a(arg)))\<close>
  \<^verbatim>\<open>reduce\<close> without an initial value starts from the first element of the array.
\<close>

fun pipe :: "('a \<Rightarrow> 'a) list \<Rightarrow> 'a \<Rightarrow> 'a" where
  "pipe [] = (\<lambda>arg. arg)"
| "pipe [f] = f"
| "pipe (f # g # fns) = foldl (\<lambda>a b. (\<lambda>arg. b (a arg))) f (g # fns)"

text \<open>\<^verbatim>\<open>compose\<close> is the same with \<^verbatim>\<open>(a, b) => (arg) => a(b(arg))\<close>.\<close>

fun compose :: "('a \<Rightarrow> 'a) list \<Rightarrow> 'a \<Rightarrow> 'a" where
  "compose [] = (\<lambda>arg. arg)"
| "compose [f] = f"
| "compose (f # g # fns) = foldl (\<lambda>a b. (\<lambda>arg. a (b arg))) f (g # fns)"

section \<open>Vocabulary of the properties\<close>

subsection \<open>The chain a snapshot stands for\<close>

text \<open>
  \<open>chain ms\<close> is the pipeline over the list \<open>ms\<close>, by recursion on the list: the first
  middleware runs, and its continuation is the chain of the others.
\<close>

primrec chain :: "'v middleware list \<Rightarrow> 'v \<Rightarrow> 'v world \<Rightarrow> ('v exn + 'v) \<times> 'v world" where
  "chain [] data s = (Inr data, s)"
| "chain (m # ms) data s = run (chain ms) (m data) s"

subsection \<open>Kinds of callback bodies\<close>

text \<open>
  \<open>settles out p\<close>: the body \<open>p\<close> ends with the outcome \<open>out\<close> (it returns \<open>r\<close> when
  \<open>out = Inr r\<close>, throws \<open>e\<close> when \<open>out = Inl e\<close>), after effects of its own and calls of
  \<^verbatim>\<open>extend\<close> only.
\<close>

primrec settles :: "'v exn + 'v \<Rightarrow> 'v prog \<Rightarrow> bool" where
  "settles out (Return v) = (out = Inr v)"
| "settles out (Throw e) = (out = Inl e)"
| "settles out (Effect l k) = settles out k"
| "settles out (Next d k) = False"
| "settles out (UseMiddleware m k) = False"
| "settles out (Hook key h k) = False"
| "settles out (Extend key v k) = settles out k"
| "settles out (PluginsSet key n i k) = False"
| "settles out (PluginsDelete key k) = False"
| "settles out (PluginsClear k) = False"
| "settles out (Assign key v k) = False"
| "settles out (Delete key k) = False"

text \<open>
  \<open>passthrough x p\<close>: the body \<open>p\<close> of a middleware called with the data \<open>x\<close> calls its
  continuation once, with \<open>x\<close>, and returns what the continuation returned.
\<close>

primrec passthrough :: "'v \<Rightarrow> 'v prog \<Rightarrow> bool" where
  "passthrough x (Return v) = False"
| "passthrough x (Throw e) = False"
| "passthrough x (Effect l k) = passthrough x k"
| "passthrough x (Next d k) = (d = x \<and> (\<forall>r. settles (Inr r) (k (Inr r))))"
| "passthrough x (UseMiddleware m k) = False"
| "passthrough x (Hook key h k) = False"
| "passthrough x (Extend key v k) = passthrough x k"
| "passthrough x (PluginsSet key n i k) = False"
| "passthrough x (PluginsDelete key k) = False"
| "passthrough x (PluginsClear k) = False"
| "passthrough x (Assign key v k) = False"
| "passthrough x (Delete key k) = False"



text \<open>
  \<open>relay l f\<close> is the middleware
  \<^verbatim>\<open>(data, next) => { count(l); return next(f(data)); }\<close>.
\<close>

definition settle :: "'v exn + 'v \<Rightarrow> 'v prog" where
  "settle out = (case out of Inl e \<Rightarrow> Throw e | Inr r \<Rightarrow> Return r)"

definition relay :: "label \<Rightarrow> ('v \<Rightarrow> 'v) \<Rightarrow> 'v middleware" where
  "relay l f = (\<lambda>data. Effect l (Next (f data) settle))"

subsection \<open>Worlds that differ in the live middleware list only\<close>

text \<open>
  \<open>same_but_live s t\<close>: the worlds \<open>s\<close> and \<open>t\<close> have the same warnings, the same
  effects and the same context, but for the elements of the array
  \<^verbatim>\<open>context.middlewares\<close>.
\<close>

definition same_but_live :: "'v world \<Rightarrow> 'v world \<Rightarrow> bool" where
  "same_but_live s t \<longleftrightarrow>
     warnings s = warnings t \<and> effects s = effects t \<and> proto s = proto t
     \<and> (\<forall>key. key \<noteq> ''middlewares'' \<longrightarrow> ctx s key = ctx t key)
     \<and> (ctx s ''middlewares'' = ctx t ''middlewares''
        \<or> (\<exists>a b. ctx s ''middlewares'' = Some (Middlewares a)
                 \<and> ctx t ''middlewares'' = Some (Middlewares b)))"

subsection \<open>Bodies that call the continuation several times\<close>

text \<open>
  \<open>nexts ds k\<close> calls the continuation once for each element of \<open>ds\<close>, in order, and
  goes on as \<open>k\<close> with the list of the outcomes. \<open>rerun nxt ds s\<close> is what these calls do
  when \<open>nxt\<close> is the continuation: each call starts in the world the call before left.
\<close>

fun nexts :: "'v list \<Rightarrow> (('v exn + 'v) list \<Rightarrow> 'v prog) \<Rightarrow> 'v prog" where
  "nexts [] k = k []"
| "nexts (d # ds) k = Next d (\<lambda>out. nexts ds (\<lambda>outs. k (out # outs)))"

fun rerun :: "('v \<Rightarrow> 'v world \<Rightarrow> ('v exn + 'v) \<times> 'v world) \<Rightarrow> 'v list \<Rightarrow> 'v world
    \<Rightarrow> ('v exn + 'v) list \<times> 'v world" where
  "rerun nxt [] s = ([], s)"
| "rerun nxt (d # ds) s =
     (case nxt d s of (out, s1) \<Rightarrow>
        (case rerun nxt ds s1 of (outs, s2) \<Rightarrow> (out # outs, s2)))"

subsection \<open>Bodies that tamper with the registry\<close>

text \<open>
  \<open>tampers key p\<close>: the body \<open>p\<close> has a write that can take the entry \<open>key\<close> of the
  registry away: a call \<^verbatim>\<open>extend('plugins', v)\<close> or an assignment
  \<^verbatim>\<open>context.plugins = v\<close>, which overwrite the registry, a \<^verbatim>\<open>delete context.plugins\<close>, a
  \<^verbatim>\<open>context.plugins.set(key, ...)\<close> or \<^verbatim>\<open>context.plugins.delete(key)\<close> for this \<open>key\<close>, or
  a \<^verbatim>\<open>context.plugins.clear()\<close>.
\<close>

primrec tampers :: "string \<Rightarrow> 'v prog \<Rightarrow> bool" where
  "tampers key (Return v) = False"
| "tampers key (Throw e) = False"
| "tampers key (Effect l k) = tampers key k"
| "tampers key (Next d k) = (\<exists>out. tampers key (k out))"
| "tampers key (UseMiddleware m k) = tampers key k"
| "tampers key (Hook key' h k) = tampers key k"
| "tampers key (Extend key' v k) = (key' = ''plugins'' \<or> tampers key k)"
| "tampers key (PluginsSet key' n i k) = (key' = key \<or> tampers key k)"
| "tampers key (PluginsDelete key' k) = (key' = key \<or> tampers key k)"
| "tampers key (PluginsClear k) = True"
| "tampers key (Assign key' v k) = (key' = ''plugins'' \<or> tampers key k)"
| "tampers key (Delete key' k) = (key' = ''plugins'' \<or> tampers key k)"

subsection \<open>Hooks that compute a function\<close>



subsection \<open>Example systems\<close>

text \<open>Two middlewares that count their call and pass on.\<close>

definition demo_relays :: "nat world" where
  "demo_relays =
     snd (useMiddleware (relay ''b'' (\<lambda>d. d))
       (snd (useMiddleware (relay ''a'' (\<lambda>d. d)) (createPluginSystem 0))))"






text \<open>
  \<^verbatim>\<open>(data, next) => { system.useMiddleware(late); return next(data); }\<close> before a relay.
\<close>

definition registering :: "nat middleware" where
  "registering = (\<lambda>data. UseMiddleware (relay ''late'' (\<lambda>d. d)) (Next data settle))"

definition demo_registering :: "nat world" where
  "demo_registering =
     snd (useMiddleware (relay ''b'' (\<lambda>d. d))
       (snd (useMiddleware registering (createPluginSystem 0))))"

text \<open>
  \<^verbatim>\<open>(data, next) => next(data) + next(data + 10)\<close> before a relay that adds one.
\<close>

definition twice :: "nat middleware" where
  "twice =
     (\<lambda>data. nexts [data, data + 10]
        (\<lambda>outs. case outs of [Inr a, Inr b] \<Rightarrow> Return (a + b) | _ \<Rightarrow> Throw TypeError))"

definition demo_twice :: "nat world" where
  "demo_twice =
     snd (useMiddleware (relay ''t'' Suc) (snd (useMiddleware twice (createPluginSystem 0))))"

text \<open>Two plugins of one name, told apart by the effect of their \<^verbatim>\<open>install\<close>.\<close>

definition first_plugin :: "nat plugin" where
  "first_plugin = \<lparr>name = ''p'', install = (\<lambda>opts. Effect ''first'' (Return 0))\<rparr>"

definition second_plugin :: "nat plugin" where
  "second_plugin = \<lparr>name = ''p'', install = (\<lambda>opts. Effect ''second'' (Return 0))\<rparr>"

text \<open>
  \<^verbatim>\<open>install(ctx) { system.extend('log', 5); ctx.plugins.delete('old'); count('half'); throw 1; }\<close>
  and \<^verbatim>\<open>install(ctx) { ctx.plugins.delete('c'); throw 1; }\<close>.
\<close>

definition failing_plugin :: "nat plugin" where
  "failing_plugin =
     \<lparr>name = ''f'',
      install = (\<lambda>opts. Extend ''log'' (Primitive 5)
                          (PluginsDelete ''old'' (Effect ''half'' (Throw (Thrown 1)))))\<rparr>"

definition unregistering_plugin :: "nat plugin" where
  "unregistering_plugin =
     \<lparr>name = ''c'', install = (\<lambda>opts. PluginsDelete ''c'' (Throw (Thrown 1)))\<rparr>"


section \<open>Properties\<close>

subsection \<open>Function composition\<close>

lemma foldl_pipe_apply:
  "foldl (\<lambda>a b. (\<lambda>arg. b (a arg))) f gs x = foldl (\<lambda>acc h. h acc) (f x) gs"
  by (induction gs arbitrary: f) simp_all

lemma foldl_compose_apply:
  "foldl (\<lambda>a b. (\<lambda>arg. a (b arg))) f gs x = f (foldr (\<lambda>h acc. h acc) gs x)"
  by (induction gs arbitrary: f) simp_all

lemma pipe_left_to_right: "pipe fns x = foldl (\<lambda>acc h. h acc) x fns"
  by (cases fns rule: pipe.cases) (simp_all add: foldl_pipe_apply)

lemma compose_right_to_left: "compose fns x = foldr (\<lambda>h acc. h acc) fns x"
  by (cases fns rule: compose.cases) (simp_all add: foldl_compose_apply)

text \<open>
  Claim C9. \<open>pipe\<close> of two functions applies the first and then the second, and
  \<open>pipe\<close> of any list applies its functions from left to right; \<open>compose\<close> of two
  functions applies the second and then the first, and \<open>compose\<close> of any list applies
  its functions from right to left. With no function both are the identity; with one
  function both return that function itself.
\<close>

theorem pipe_compose_laws:
  "pipe [f, g] x = g (f x) \<and> compose [f, g] x = f (g x)
   \<and> pipe fns x = foldl (\<lambda>acc h. h acc) x fns
   \<and> compose fns x = foldr (\<lambda>h acc. h acc) fns x
   \<and> pipe [] = (\<lambda>arg. arg) \<and> compose [] = (\<lambda>arg. arg)
   \<and> pipe [f] = f \<and> compose [f] = f"
proof -
  have two: "pipe [f, g] x = g (f x)" "compose [f, g] x = f (g x)"
    by simp_all
  have many: "pipe fns x = foldl (\<lambda>acc h. h acc) x fns"
    "compose fns x = foldr (\<lambda>h acc. h acc) fns x"
    by (rule pipe_left_to_right, rule compose_right_to_left)
  have none: "pipe [] = (\<lambda>arg. arg)" "compose [] = (\<lambda>arg. arg)"
    by simp_all
  have one: "pipe [f] = f" "compose [f] = f"
    by simp_all
  show ?thesis by (intro conjI two many none one)
qed

subsection \<open>The pipeline as a chain\<close>

text \<open>
  \<^verbatim>\<open>dispatch(index, data)\<close> runs the middlewares of the captured array from \<open>index\<close>
  on: the chain of the rest of the array.
\<close>

lemma extend_total: "fst (extend key v s) = Inr ()"
  by (simp add: extend_def Let_def)

lemma run_Extend: "run nxt (Extend key v k) s = run nxt k (snd (extend key v s))"
  using extend_total [of key v s] by (cases "extend key v s") simp

lemma run_settles: "settles out p \<Longrightarrow> fst (run nxt p s) = out"
  by (induction p arbitrary: s) (simp_all add: run_Extend del: run.simps(7))

lemma settles_settle: "settles out (settle out)"
  by (cases out) (simp_all add: settle_def)

lemma run_settle: "run nxt (settle out) s = (out, s)"
  by (cases out) (simp_all add: settle_def)

lemma dispatch_chain: "dispatch ms i d s = chain (drop i ms) d s"
proof (induction ms i d s rule: dispatch.induct)
  case (1 middlewares index data s)
  show ?case
  proof (cases "index \<ge> length middlewares")
    case True
    then show ?thesis by (simp add: dispatch.simps)
  next
    case False
    then have lt: "index < length middlewares" by simp
    have rest: "(\<lambda>nextData s'. dispatch middlewares (index + 1) nextData s')
                = chain (drop (Suc index) middlewares)"
      using 1 False by (intro ext) simp
    have "dispatch middlewares index data s
            = run (chain (drop (Suc index) middlewares)) ((middlewares ! index) data) s"
      using False rest by (subst dispatch.simps) simp
    also have "\<dots> = chain (drop index middlewares) data s"
      by (simp add: Cons_nth_drop_Suc [OF lt, symmetric])
    finally show ?thesis .
  qed
qed

lemma dispatch_chain_fun: "dispatch ms i = chain (drop i ms)"
  by (intro ext) (rule dispatch_chain)

lemma applyMiddlewares_chain:
  "ctx s ''middlewares'' = Some (Middlewares ms) \<Longrightarrow> applyMiddlewares x s = chain ms x s"
  by (simp add: applyMiddlewares_def dispatch_chain)

lemma useMiddleware_appends:
  "ctx s ''middlewares'' = Some (Middlewares ms) \<Longrightarrow>
   useMiddleware m s = (Inr (), s\<lparr>ctx := (ctx s)(''middlewares'' \<mapsto> Middlewares (ms @ [m]))\<rparr>)"
  by (simp add: useMiddleware_def)

subsection \<open>Middlewares that pass on\<close>

lemma run_passthrough:
  "passthrough x p \<Longrightarrow> (\<And>s'. fst (nxt x s') = Inr x) \<Longrightarrow> fst (run nxt p s) = Inr x"
proof (induction p arbitrary: s)
  case (Next d k)
  then have d: "d = x" and k: "settles (Inr x) (k (Inr x))" by simp_all
  obtain out s' where n: "nxt x s = (out, s')" by (cases "nxt x s")
  with Next.prems(2) [of s] have "out = Inr x" by simp
  with n d k show ?case by (simp add: run_settles)
qed (simp_all add: run_Extend del: run.simps(7))

lemma chain_passthrough:
  "(\<And>m d. m \<in> set ms \<Longrightarrow> passthrough d (m d)) \<Longrightarrow> fst (chain ms x s) = Inr x"
proof (induction ms arbitrary: s)
  case Nil
  show ?case by simp
next
  case (Cons m ms)
  have rest: "\<And>s'. fst (chain ms x s') = Inr x" using Cons by simp
  have "passthrough x (m x)" using Cons.prems by simp
  then show ?case using rest by (simp add: run_passthrough)
qed

text \<open>
  Claim C1. Let the context hold the middleware list \<open>ms\<close>, and let every middleware of
  it, whatever data it is called with, call its continuation once with that data and
  return what the continuation returned. Then \<open>applyMiddlewares x\<close> returns \<open>x\<close>. With the
  empty list it returns \<open>x\<close> and changes nothing. The list is the one \<open>useMiddleware\<close>
  builds: it starts empty and each call appends.
\<close>

theorem passthrough_returns_input:
  assumes "ctx s ''middlewares'' = Some (Middlewares ms)"
      and "\<forall>m\<in>set ms. \<forall>d. passthrough d (m d)"
  shows "fst (applyMiddlewares x s) = Inr x
       \<and> (ms = [] \<longrightarrow> applyMiddlewares x s = (Inr x, s))
       \<and> ctx (snd (useMiddleware m s)) ''middlewares'' = Some (Middlewares (ms @ [m]))
       \<and> ctx (createPluginSystem (opts::'v)) ''middlewares'' = Some (Middlewares [])"
proof -
  have "fst (chain ms x s) = Inr x"
    using assms(2) by (intro chain_passthrough) simp
  moreover have "ms = [] \<longrightarrow> chain ms x s = (Inr x, s)" by simp
  ultimately show ?thesis
    using assms(1)
    by (simp add: applyMiddlewares_chain useMiddleware_appends createPluginSystem_def)
qed

lemma demo_relays_slot:
  "ctx demo_relays ''middlewares'' = Some (Middlewares [relay ''a'' (\<lambda>d. d), relay ''b'' (\<lambda>d. d)])"
  by (simp add: demo_relays_def useMiddleware_def createPluginSystem_def)

text \<open>
  On the system of two relays, \<open>applyMiddlewares 5\<close> returns \<open>5\<close>.
\<close>

theorem passthrough_returns_input_witness:
  "ctx demo_relays ''middlewares'' = Some (Middlewares [relay ''a'' (\<lambda>d. d), relay ''b'' (\<lambda>d. d)])
   \<and> (\<forall>d::nat. passthrough d (relay ''a'' (\<lambda>d. d) d))
   \<and> (\<forall>d::nat. passthrough d (relay ''b'' (\<lambda>d. d) d))
   \<and> fst (applyMiddlewares 5 demo_relays) = Inr 5"
proof -
  have pt: "\<forall>m\<in>set [relay ''a'' (\<lambda>d. d), relay ''b'' (\<lambda>d. d)]. \<forall>d::nat. passthrough d (m d)"
    by (simp add: relay_def settles_settle)
  have a: "fst (applyMiddlewares 5 demo_relays) = Inr 5"
    using passthrough_returns_input [OF demo_relays_slot pt, where x = 5 and m = "relay ''c'' (\<lambda>d. d)" and opts = 0]
    by (rule conjunct1)
  have b: "(\<forall>d::nat. passthrough d (relay ''a'' (\<lambda>d. d) d))" using pt by simp
  have c: "(\<forall>d::nat. passthrough d (relay ''b'' (\<lambda>d. d) d))" using pt by simp
  show ?thesis using a b c demo_relays_slot by blast
qed

subsection \<open>Short circuit\<close>










subsection \<open>The snapshot\<close>

lemma same_but_live_effect:
  "same_but_live s t \<Longrightarrow>
   same_but_live (s\<lparr>effects := effects s @ [l]\<rparr>) (t\<lparr>effects := effects t @ [l]\<rparr>)"
  by (simp add: same_but_live_def)

lemma same_but_live_useMiddleware:
  assumes "same_but_live s t"
  shows "fst (useMiddleware m s) = fst (useMiddleware m t)
       \<and> same_but_live (snd (useMiddleware m s)) (snd (useMiddleware m t))"
proof -
  from assms consider
      (eq) "ctx s ''middlewares'' = ctx t ''middlewares''"
    | (both) a b where "ctx s ''middlewares'' = Some (Middlewares a)"
        "ctx t ''middlewares'' = Some (Middlewares b)"
    by (auto simp: same_but_live_def)
  then show ?thesis
  proof cases
    case eq
    with assms show ?thesis
      by (auto simp: useMiddleware_def same_but_live_def split: option.splits slot.splits)
  next
    case both
    with assms show ?thesis
      by (auto simp: useMiddleware_def same_but_live_def)
  qed
qed

lemma same_but_live_hook:
  assumes "same_but_live s t"
  shows "fst (hook key h s) = fst (hook key h t)
       \<and> same_but_live (snd (hook key h s)) (snd (hook key h t))"
proof -
  have hk: "ctx s ''hooks'' = ctx t ''hooks''"
    using assms by (simp add: same_but_live_def)
  show ?thesis
  proof (cases "\<exists>hm. ctx t ''hooks'' = Some (Hooks hm)")
    case True
    then obtain hm where hm: "ctx t ''hooks'' = Some (Hooks hm)" by blast
    show ?thesis
      using assms hk hm by (cases "hm key") (simp_all add: hook_def same_but_live_def)
  next
    case False
    then have "hook key h s = (Inl TypeError, s)" "hook key h t = (Inl TypeError, t)"
      using hk by (auto simp: hook_def split: option.splits slot.splits)
    then show ?thesis using assms by simp
  qed
qed

lemma same_but_live_warn:
  "same_but_live s t \<Longrightarrow> same_but_live (warn msg s) (warn msg t)"
  by (simp add: same_but_live_def warn_def)

lemma same_but_live_known:
  assumes "same_but_live s t"
  shows "(ctx s key = None \<longleftrightarrow> ctx t key = None) \<and> (inherited s key \<longleftrightarrow> inherited t key)
       \<and> (in_context key s \<longleftrightarrow> in_context key t)"
proof -
  have dom: "ctx s key = None \<longleftrightarrow> ctx t key = None"
  proof (cases "key = ''middlewares''")
    case True
    from assms have "ctx s ''middlewares'' = ctx t ''middlewares''
        \<or> (\<exists>a b. ctx s ''middlewares'' = Some (Middlewares a)
                 \<and> ctx t ''middlewares'' = Some (Middlewares b))"
      by (simp add: same_but_live_def)
    then show ?thesis using True by (elim disjE exE conjE) simp_all
  next
    case False
    with assms show ?thesis by (simp add: same_but_live_def)
  qed
  have inh: "inherited s key \<longleftrightarrow> inherited t key"
    using assms by (simp add: inherited_def same_but_live_def)
  show ?thesis using dom inh by (simp add: in_context_def)
qed

lemma same_but_live_assign:
  assumes "same_but_live s t"
  shows "same_but_live (assign key v s) (assign key v t)"
proof -
  note kn = same_but_live_known [OF assms, of key]
  from kn have e1: "(ctx s key = None) = (ctx t key = None)" by (rule conjunct1)
  from kn have e2: "inherited s key = inherited t key" by (elim conjE)
  have setter: "same_but_live (s\<lparr>proto := Replaced v\<rparr>) (t\<lparr>proto := Replaced v\<rparr>)"
    using assms by (simp add: same_but_live_def)
  have plain: "same_but_live (s\<lparr>ctx := (ctx s)(key \<mapsto> Value v)\<rparr>)
      (t\<lparr>ctx := (ctx t)(key \<mapsto> Value v)\<rparr>)"
    using assms by (simp add: same_but_live_def)
  show ?thesis
  proof (cases "key = ''__proto__'' \<and> inherited t key \<and> ctx t key = None")
    case True
    have a: "assign key v s = (case v of Primitive p \<Rightarrow> s | _ \<Rightarrow> s\<lparr>proto := Replaced v\<rparr>)"
      unfolding assign_def e1 e2 by (rule if_P [OF True])
    have b: "assign key v t = (case v of Primitive p \<Rightarrow> t | _ \<Rightarrow> t\<lparr>proto := Replaced v\<rparr>)"
      unfolding assign_def by (rule if_P [OF True])
    show ?thesis unfolding a b using setter assms by (cases v) simp_all
  next
    case False
    have a: "assign key v s = s\<lparr>ctx := (ctx s)(key \<mapsto> Value v)\<rparr>"
      unfolding assign_def e1 e2 by (rule if_not_P [OF False])
    have b: "assign key v t = t\<lparr>ctx := (ctx t)(key \<mapsto> Value v)\<rparr>"
      unfolding assign_def by (rule if_not_P [OF False])
    show ?thesis unfolding a b by (rule plain)
  qed
qed

lemma same_but_live_extend:
  assumes "same_but_live s t"
  shows "fst (extend key v s) = fst (extend key v t)
       \<and> same_but_live (snd (extend key v s)) (snd (extend key v t))"
proof -
  have "same_but_live (if in_context key s then warn (already_exists key) s else s)
      (if in_context key t then warn (already_exists key) t else t)"
    using assms same_but_live_known [OF assms, of key] by (simp add: same_but_live_warn)
  then show ?thesis
    by (simp add: extend_def same_but_live_assign)
qed

lemma same_but_live_update_plugins:
  assumes "same_but_live s t"
  shows "fst (update_plugins f s) = fst (update_plugins f t)
       \<and> same_but_live (snd (update_plugins f s)) (snd (update_plugins f t))"
proof -
  have pl: "ctx s ''plugins'' = ctx t ''plugins''"
    using assms by (simp add: same_but_live_def)
  show ?thesis
  proof (cases "\<exists>reg. ctx t ''plugins'' = Some (Plugins reg)")
    case True
    then obtain reg where "ctx t ''plugins'' = Some (Plugins reg)" by blast
    then show ?thesis
      using assms pl by (simp add: update_plugins_def same_but_live_def)
  next
    case False
    then have "update_plugins f s = (Inl TypeError, s)" "update_plugins f t = (Inl TypeError, t)"
      using pl by (auto simp: update_plugins_def split: option.splits slot.splits)
    then show ?thesis using assms by simp
  qed
qed

lemma same_but_live_run:
  assumes nxt: "\<And>d s t. same_but_live s t \<Longrightarrow>
                  fst (nxt d s) = fst (nxt' d t) \<and> same_but_live (snd (nxt d s)) (snd (nxt' d t))"
  shows "same_but_live s t \<Longrightarrow>
         fst (run nxt p s) = fst (run nxt' p t) \<and> same_but_live (snd (run nxt p s)) (snd (run nxt' p t))"
proof (induction p arbitrary: s t)
  case (Return v)
  then show ?case by simp
next
  case (Throw e)
  then show ?case by simp
next
  case (Effect l k)
  then show ?case by (simp add: same_but_live_effect)
next
  case (Next d k)
  obtain o1 s1 where a: "nxt d s = (o1, s1)" by (cases "nxt d s")
  obtain o2 t1 where b: "nxt' d t = (o2, t1)" by (cases "nxt' d t")
  from nxt [OF Next.prems, of d] a b have o: "o1 = o2" and st: "same_but_live s1 t1" by simp_all
  have "fst (run nxt (k o2) s1) = fst (run nxt' (k o2) t1)
      \<and> same_but_live (snd (run nxt (k o2) s1)) (snd (run nxt' (k o2) t1))"
    using st by (intro Next.IH) simp_all
  with a b o show ?case by simp
next
  case (UseMiddleware m k)
  obtain o1 s1 where a: "useMiddleware m s = (o1, s1)" by (cases "useMiddleware m s")
  obtain o2 t1 where b: "useMiddleware m t = (o2, t1)" by (cases "useMiddleware m t")
  from same_but_live_useMiddleware [OF UseMiddleware.prems, of m] a b
  have o: "o1 = o2" and st: "same_but_live s1 t1" by simp_all
  then have "fst (run nxt k s1) = fst (run nxt' k t1)
      \<and> same_but_live (snd (run nxt k s1)) (snd (run nxt' k t1))"
    by (intro UseMiddleware.IH(2)) simp_all
  with a b o st show ?case by (cases o2) simp_all
next
  case (Hook key h k)
  obtain o1 s1 where a: "hook key h s = (o1, s1)" by (cases "hook key h s")
  obtain o2 t1 where b: "hook key h t = (o2, t1)" by (cases "hook key h t")
  from same_but_live_hook [OF Hook.prems, of key h] a b
  have o: "o1 = o2" and st: "same_but_live s1 t1" by simp_all
  then have "fst (run nxt k s1) = fst (run nxt' k t1)
      \<and> same_but_live (snd (run nxt k s1)) (snd (run nxt' k t1))"
    by (intro Hook.IH(2)) simp_all
  with a b o st show ?case by (cases o2) simp_all
next
  case (Extend key v k)
  obtain o1 s1 where a: "extend key v s = (o1, s1)" by (cases "extend key v s")
  obtain o2 t1 where b: "extend key v t = (o2, t1)" by (cases "extend key v t")
  from same_but_live_extend [OF Extend.prems, of key v] a b
  have o: "o1 = o2" and st: "same_but_live s1 t1" by simp_all
  then have "fst (run nxt k s1) = fst (run nxt' k t1)
      \<and> same_but_live (snd (run nxt k s1)) (snd (run nxt' k t1))"
    by (intro Extend.IH) simp_all
  with a b o st show ?case by (cases o2) simp_all
next
  case (PluginsSet key n i k)
  let ?f = "(\<lambda>reg. reg(key \<mapsto> \<lparr>name = n, install = i\<rparr>))"
  obtain o1 s1 where a: "update_plugins ?f s = (o1, s1)" by (cases "update_plugins ?f s")
  obtain o2 t1 where b: "update_plugins ?f t = (o2, t1)" by (cases "update_plugins ?f t")
  from same_but_live_update_plugins [OF PluginsSet.prems, of ?f] a b
  have o: "o1 = o2" and st: "same_but_live s1 t1" by simp_all
  then have "fst (run nxt k s1) = fst (run nxt' k t1)
      \<and> same_but_live (snd (run nxt k s1)) (snd (run nxt' k t1))"
    by (intro PluginsSet.IH(2)) simp_all
  with a b o st show ?case by (cases o2) simp_all
next
  case (PluginsDelete key k)
  let ?f = "(\<lambda>reg. reg(key := None))"
  obtain o1 s1 where a: "update_plugins ?f s = (o1, s1)" by (cases "update_plugins ?f s")
  obtain o2 t1 where b: "update_plugins ?f t = (o2, t1)" by (cases "update_plugins ?f t")
  from same_but_live_update_plugins [OF PluginsDelete.prems, of ?f] a b
  have o: "o1 = o2" and st: "same_but_live s1 t1" by simp_all
  then have "fst (run nxt k s1) = fst (run nxt' k t1)
      \<and> same_but_live (snd (run nxt k s1)) (snd (run nxt' k t1))"
    by (intro PluginsDelete.IH) simp_all
  with a b o st show ?case by (cases o2) simp_all
next
  case (PluginsClear k)
  let ?f = "(\<lambda>reg. Map.empty)"
  obtain o1 s1 where a: "update_plugins ?f s = (o1, s1)" by (cases "update_plugins ?f s")
  obtain o2 t1 where b: "update_plugins ?f t = (o2, t1)" by (cases "update_plugins ?f t")
  from same_but_live_update_plugins [OF PluginsClear.prems, of ?f] a b
  have o: "o1 = o2" and st: "same_but_live s1 t1" by simp_all
  then have "fst (run nxt k s1) = fst (run nxt' k t1)
      \<and> same_but_live (snd (run nxt k s1)) (snd (run nxt' k t1))"
    by (intro PluginsClear.IH) simp_all
  with a b o st show ?case by (cases o2) simp_all
next
  case (Assign key v k)
  have "same_but_live (assign key v s) (assign key v t)"
    using Assign.prems by (rule same_but_live_assign)
  then have "fst (run nxt k (assign key v s)) = fst (run nxt' k (assign key v t))
      \<and> same_but_live (snd (run nxt k (assign key v s))) (snd (run nxt' k (assign key v t)))"
    by (rule Assign.IH)
  then show ?case by simp
next
  case (Delete key k)
  have "same_but_live (s\<lparr>ctx := (ctx s)(key := None)\<rparr>) (t\<lparr>ctx := (ctx t)(key := None)\<rparr>)"
    using Delete.prems by (simp add: same_but_live_def)
  then have "fst (run nxt k (s\<lparr>ctx := (ctx s)(key := None)\<rparr>))
        = fst (run nxt' k (t\<lparr>ctx := (ctx t)(key := None)\<rparr>))
      \<and> same_but_live (snd (run nxt k (s\<lparr>ctx := (ctx s)(key := None)\<rparr>)))
          (snd (run nxt' k (t\<lparr>ctx := (ctx t)(key := None)\<rparr>)))"
    by (rule Delete.IH)
  then show ?case by simp
qed

lemma same_but_live_chain:
  "same_but_live s t \<Longrightarrow>
   fst (chain ms x s) = fst (chain ms x t) \<and> same_but_live (snd (chain ms x s)) (snd (chain ms x t))"
proof (induction ms arbitrary: x s t)
  case Nil
  then show ?case by simp
next
  case (Cons m ms)
  have "fst (run (chain ms) (m x) s) = fst (run (chain ms) (m x) t)
      \<and> same_but_live (snd (run (chain ms) (m x) s)) (snd (run (chain ms) (m x) t))"
    using Cons.IH Cons.prems by (intro same_but_live_run) blast+
  then show ?case by simp
qed

text \<open>
  Claim C3. \<open>applyMiddlewares\<close> runs the chain of the list \<open>ms\<close> the context holds when it
  is called, and \<open>dispatch\<close> at any index, in any world, runs the rest of that list: which
  middlewares run, how many and in which order is fixed by \<open>ms\<close>. What the array
  \<^verbatim>\<open>context.middlewares\<close> holds while the call runs has no influence: in two worlds that
  differ in it only, the run over \<open>ms\<close> has the same outcome and leaves worlds that differ in
  it only. So a call \<^verbatim>\<open>useMiddleware(m')\<close> from the body of a middleware in flight appends
  \<open>m'\<close> to the live array, and the body goes on as it would have without the call.
\<close>

theorem snapshot_fixes_execution:
  assumes "ctx s ''middlewares'' = Some (Middlewares ms)"
  shows "applyMiddlewares x s = chain ms x s
       \<and> (\<forall>i d u. dispatch ms i d u = chain (drop i ms) d u)
       \<and> (\<forall>t. same_but_live s t \<longrightarrow>
              fst (dispatch ms 0 x t) = fst (applyMiddlewares x s)
              \<and> same_but_live (snd (applyMiddlewares x s)) (snd (dispatch ms 0 x t)))
       \<and> (\<forall>i u live m' k. ctx u ''middlewares'' = Some (Middlewares live) \<longrightarrow>
              fst (run (dispatch ms (Suc i)) (UseMiddleware m' k) u)
                = fst (run (dispatch ms (Suc i)) k u)
              \<and> same_but_live (snd (run (dispatch ms (Suc i)) (UseMiddleware m' k) u))
                    (snd (run (dispatch ms (Suc i)) k u))
              \<and> ctx (snd (useMiddleware m' u)) ''middlewares'' = Some (Middlewares (live @ [m'])))"
proof -
  have a: "applyMiddlewares x s = chain ms x s"
    using assms by (rule applyMiddlewares_chain)
  have b: "\<forall>i d u. dispatch ms i d u = chain (drop i ms) d u"
    by (simp add: dispatch_chain)
  have c: "\<forall>t. same_but_live s t \<longrightarrow>
              fst (dispatch ms 0 x t) = fst (applyMiddlewares x s)
              \<and> same_but_live (snd (applyMiddlewares x s)) (snd (dispatch ms 0 x t))"
    using same_but_live_chain [of s _ ms x] by (simp add: a dispatch_chain)
  have d: "fst (run (dispatch ms (Suc i)) (UseMiddleware m' k) u)
                = fst (run (dispatch ms (Suc i)) k u)
              \<and> same_but_live (snd (run (dispatch ms (Suc i)) (UseMiddleware m' k) u))
                    (snd (run (dispatch ms (Suc i)) k u))
              \<and> ctx (snd (useMiddleware m' u)) ''middlewares'' = Some (Middlewares (live @ [m']))"
    if live: "ctx u ''middlewares'' = Some (Middlewares live)" for i u live m' k
  proof -
    let ?u' = "u\<lparr>ctx := (ctx u)(''middlewares'' \<mapsto> Middlewares (live @ [m']))\<rparr>"
    have reg: "useMiddleware m' u = (Inr (), ?u')"
      using live by (rule useMiddleware_appends)
    have rel: "same_but_live ?u' u"
      using live by (simp add: same_but_live_def)
    have nxt: "dispatch ms (Suc i) = chain (drop (Suc i) ms)"
      by (intro ext) (simp add: dispatch_chain)
    have "fst (run (chain (drop (Suc i) ms)) k ?u') = fst (run (chain (drop (Suc i) ms)) k u)
        \<and> same_but_live (snd (run (chain (drop (Suc i) ms)) k ?u'))
             (snd (run (chain (drop (Suc i) ms)) k u))"
      using rel by (intro same_but_live_run same_but_live_chain)
    then show ?thesis by (simp add: nxt reg)
  qed
  show ?thesis using a b c d by blast
qed

lemma demo_registering_slot:
  "ctx demo_registering ''middlewares'' = Some (Middlewares [registering, relay ''b'' (\<lambda>d. d)])"
  by (simp add: demo_registering_def useMiddleware_def createPluginSystem_def)

text \<open>
  A middleware that registers \<open>late\<close> while it runs: the call in flight does not run
  \<open>late\<close>, the next call does.
\<close>

theorem snapshot_fixes_execution_witness:
  "ctx demo_registering ''middlewares'' = Some (Middlewares [registering, relay ''b'' (\<lambda>d. d)])
   \<and> fst (applyMiddlewares 7 demo_registering) = Inr 7
   \<and> effects (snd (applyMiddlewares 7 demo_registering)) = [''b'']
   \<and> ctx (snd (applyMiddlewares 7 demo_registering)) ''middlewares''
        = Some (Middlewares [registering, relay ''b'' (\<lambda>d. d), relay ''late'' (\<lambda>d. d)])
   \<and> effects (snd (applyMiddlewares 7 (snd (applyMiddlewares 7 demo_registering))))
        = [''b'', ''b'', ''late'']"
proof -
  have eff: "effects demo_registering = []"
    by (simp add: demo_registering_def useMiddleware_def createPluginSystem_def)
  have first: "applyMiddlewares 7 demo_registering
      = chain [registering, relay ''b'' (\<lambda>d. d)] 7 demo_registering"
    using snapshot_fixes_execution [OF demo_registering_slot, of 7] by blast
  have "chain [registering, relay ''b'' (\<lambda>d. d)] 7 demo_registering
      = (Inr 7, demo_registering
           \<lparr>ctx := (ctx demo_registering)(''middlewares'' \<mapsto>
               Middlewares [registering, relay ''b'' (\<lambda>d. d), relay ''late'' (\<lambda>d. d)]),
            effects := [''b'']\<rparr>)"
    by (simp add: registering_def relay_def run_settle useMiddleware_def demo_registering_slot eff)
  then have run1: "applyMiddlewares 7 demo_registering
      = (Inr 7, demo_registering
           \<lparr>ctx := (ctx demo_registering)(''middlewares'' \<mapsto>
               Middlewares [registering, relay ''b'' (\<lambda>d. d), relay ''late'' (\<lambda>d. d)]),
            effects := [''b'']\<rparr>)"
    by (simp only: first)
  let ?s1 = "snd (applyMiddlewares 7 demo_registering)"
  have slot1: "ctx ?s1 ''middlewares''
      = Some (Middlewares [registering, relay ''b'' (\<lambda>d. d), relay ''late'' (\<lambda>d. d)])"
    by (simp add: run1)
  have eff1: "effects ?s1 = [''b'']" by (simp add: run1)
  have second: "applyMiddlewares 7 ?s1
      = chain [registering, relay ''b'' (\<lambda>d. d), relay ''late'' (\<lambda>d. d)] 7 ?s1"
    using slot1 by (rule applyMiddlewares_chain)
  have "effects (snd (chain [registering, relay ''b'' (\<lambda>d. d), relay ''late'' (\<lambda>d. d)] 7 ?s1))
      = [''b'', ''b'', ''late'']"
    by (simp add: registering_def relay_def run_settle useMiddleware_def slot1 eff1)
  then have eff2: "effects (snd (applyMiddlewares 7 ?s1)) = [''b'', ''b'', ''late'']"
    by (simp only: second)
  have r: "fst (applyMiddlewares 7 demo_registering) = Inr 7" by (simp add: run1)
  show ?thesis by (intro conjI demo_registering_slot r eff1 slot1 eff2)
qed

subsection \<open>Calling the continuation again\<close>

lemma run_nexts:
  "run nxt (nexts ds k) s = (case rerun nxt ds s of (outs, s') \<Rightarrow> run nxt (k outs) s')"
  by (induction ds arbitrary: k s) (simp_all split: prod.splits)

text \<open>
  Claim C10. Let the middleware at index \<open>i\<close> call its continuation once for each element
  of a list \<open>ds x\<close> of its choice (no call, one call, several calls) and go on with the
  outcomes. Each call with the data \<open>d\<close> is \<^verbatim>\<open>dispatch(i + 1, d)\<close>: it runs the middlewares
  after index \<open>i\<close> of the snapshot from \<open>d\<close>, in the world the call before left, and its
  outcome is handed to the body, which sees all of them.
\<close>

theorem continuation_reruns_rest:
  assumes "i < length ms" and "ms ! i = (\<lambda>data. nexts (ds data) (k data))"
  shows "dispatch ms i x s
           = (case rerun (dispatch ms (Suc i)) (ds x) s of
                (outs, s') \<Rightarrow> run (dispatch ms (Suc i)) (k x outs) s')
       \<and> dispatch ms (Suc i) d u = chain (drop (Suc i) ms) d u"
proof -
  have "dispatch ms i x s = run (dispatch ms (Suc i)) ((ms ! i) x) s"
    using assms(1) by (subst dispatch.simps) simp
  then have "dispatch ms i x s
      = (case rerun (dispatch ms (Suc i)) (ds x) s of
           (outs, s') \<Rightarrow> run (dispatch ms (Suc i)) (k x outs) s')"
    by (simp only: assms(2) run_nexts)
  moreover have "dispatch ms (Suc i) d u = chain (drop (Suc i) ms) d u"
    by (rule dispatch_chain)
  ultimately show ?thesis by (rule conjI)
qed

lemma demo_twice_slot:
  "ctx demo_twice ''middlewares'' = Some (Middlewares [twice, relay ''t'' Suc])"
  by (simp add: demo_twice_def useMiddleware_def createPluginSystem_def)

text \<open>
  \<open>twice\<close> calls its continuation with \<open>2\<close> and with \<open>12\<close>; the relay after it runs
  twice and returns \<open>3\<close> and \<open>13\<close>; \<open>twice\<close> returns their sum.
\<close>

theorem continuation_reruns_rest_witness:
  "0 < length [twice, relay ''t'' Suc]
   \<and> ctx demo_twice ''middlewares'' = Some (Middlewares [twice, relay ''t'' Suc])
   \<and> rerun (dispatch [twice, relay ''t'' Suc] (Suc 0)) [2, 12] demo_twice
        = ([Inr 3, Inr 13], demo_twice\<lparr>effects := [''t'', ''t'']\<rparr>)
   \<and> applyMiddlewares 2 demo_twice = (Inr 16, demo_twice\<lparr>effects := [''t'', ''t'']\<rparr>)"
proof -
  have eff: "effects demo_twice = []"
    by (simp add: demo_twice_def useMiddleware_def createPluginSystem_def)
  have len: "0 < length [twice, relay ''t'' Suc]" by simp
  have body: "[twice, relay ''t'' Suc] ! 0
      = (\<lambda>data. nexts ((\<lambda>data. [data, data + 10]) data)
           ((\<lambda>data outs. case outs of [Inr a, Inr b] \<Rightarrow> Return (a + b) | _ \<Rightarrow> Throw TypeError) data))"
    by (simp add: twice_def)
  note th = continuation_reruns_rest [OF len body, of 2 demo_twice]
  have rest: "dispatch [twice, relay ''t'' Suc] (Suc 0) = chain [relay ''t'' Suc]"
    by (simp add: dispatch_chain_fun)
  have "rerun (chain [relay ''t'' Suc]) [2, 12] demo_twice
        = ([Inr 3, Inr 13], demo_twice\<lparr>effects := [''t'', ''t'']\<rparr>)"
    by (simp add: relay_def run_settle eff)
  then have rr: "rerun (dispatch [twice, relay ''t'' Suc] (Suc 0)) [2, 12] demo_twice
        = ([Inr 3, Inr 13], demo_twice\<lparr>effects := [''t'', ''t'']\<rparr>)"
    by (simp only: rest)
  from th have "dispatch [twice, relay ''t'' Suc] 0 2 demo_twice
      = (case rerun (dispatch [twice, relay ''t'' Suc] (Suc 0)) [2, 2 + 10] demo_twice of
           (outs, s') \<Rightarrow> run (dispatch [twice, relay ''t'' Suc] (Suc 0))
              (case outs of [Inr a, Inr b] \<Rightarrow> Return (a + b) | _ \<Rightarrow> Throw TypeError) s')"
    by blast
  then have "dispatch [twice, relay ''t'' Suc] 0 2 demo_twice
      = (Inr 16, demo_twice\<lparr>effects := [''t'', ''t'']\<rparr>)"
    using rr by (simp add: rest)
  then have ap: "applyMiddlewares 2 demo_twice = (Inr 16, demo_twice\<lparr>effects := [''t'', ''t'']\<rparr>)"
    by (simp add: applyMiddlewares_def demo_twice_slot)
  show ?thesis by (intro conjI len demo_twice_slot rr ap)
qed

subsection \<open>Plugins\<close>

text \<open>
  Claim C4. When the registry holds a plugin \<open>p1\<close> under the name of \<open>p2\<close>, \<open>use p2\<close>
  returns the system and adds one warning; the context and the effects are as before (so
  \<open>install\<close> of \<open>p2\<close> did not run: the call does not depend on it), and \<open>getPlugin\<close> still
  returns \<open>p1\<close>.
\<close>

theorem duplicate_use_rejected:
  assumes "ctx s ''plugins'' = Some (Plugins reg)" and "reg (name p2) = Some p1"
  shows "use p2 opts s = (Inr (), s\<lparr>warnings := warnings s @ [already_registered (name p2)]\<rparr>)
       \<and> getPlugin (name p2) (snd (use p2 opts s)) = Inr (Some p1)
       \<and> ctx (snd (use p2 opts s)) = ctx s
       \<and> effects (snd (use p2 opts s)) = effects s
       \<and> use (p2\<lparr>install := other\<rparr>) opts s = use p2 opts s"
proof -
  have known: "reg (name p2) \<noteq> None" using assms(2) by simp
  have rejected: "use p opts s = (Inr (), warn (already_registered (name p2)) s)"
    if "name p = name p2" for p :: "'a plugin"
    using assms(1) known that by (simp add: use_def)
  have a: "use p2 opts s = (Inr (), s\<lparr>warnings := warnings s @ [already_registered (name p2)]\<rparr>)"
    using rejected [of p2] by (simp add: warn_def)
  have b: "getPlugin (name p2) (snd (use p2 opts s)) = Inr (Some p1)"
    using assms by (simp add: a getPlugin_def)
  have c: "ctx (snd (use p2 opts s)) = ctx s" and d: "effects (snd (use p2 opts s)) = effects s"
    by (simp_all add: a)
  have e: "use (p2\<lparr>install := other\<rparr>) opts s = use p2 opts s"
    using rejected [of "p2\<lparr>install := other\<rparr>"] rejected [of p2] by simp
  show ?thesis by (intro conjI a b c d e)
qed

lemma use_first_plugin:
  "use first_plugin [] (createPluginSystem 0)
     = (Inr (), (createPluginSystem 0)
          \<lparr>ctx := (ctx (createPluginSystem 0))(''plugins'' \<mapsto> Plugins [''p'' \<mapsto> first_plugin]),
           effects := [''first'']\<rparr>)"
  by (simp add: use_def createPluginSystem_def first_plugin_def)

text \<open>
  After \<open>use first_plugin\<close>, \<open>use second_plugin\<close> (of the same name) leaves the one effect
  of the first \<open>install\<close>, warns, and \<open>getPlugin\<close> returns the first plugin.
\<close>

theorem duplicate_use_rejected_witness:
  "ctx (snd (use first_plugin [] (createPluginSystem 0))) ''plugins''
     = Some (Plugins [''p'' \<mapsto> first_plugin])
   \<and> [''p'' \<mapsto> first_plugin] (name second_plugin) = Some first_plugin
   \<and> fst (use second_plugin [] (snd (use first_plugin [] (createPluginSystem 0)))) = Inr ()
   \<and> effects (snd (use second_plugin [] (snd (use first_plugin [] (createPluginSystem 0)))))
        = [''first'']
   \<and> warnings (snd (use second_plugin [] (snd (use first_plugin [] (createPluginSystem 0)))))
        = [already_registered ''p'']
   \<and> getPlugin ''p'' (snd (use second_plugin [] (snd (use first_plugin [] (createPluginSystem 0)))))
        = Inr (Some first_plugin)"
proof -
  let ?s1 = "snd (use first_plugin [] (createPluginSystem 0))"
  have slot: "ctx ?s1 ''plugins'' = Some (Plugins [''p'' \<mapsto> first_plugin])"
    by (simp add: use_first_plugin)
  have reg: "[''p'' \<mapsto> first_plugin] (name second_plugin) = Some first_plugin"
    by (simp add: second_plugin_def)
  have eff: "effects ?s1 = [''first'']" and wrn: "warnings ?s1 = []"
    unfolding use_first_plugin by (simp_all add: createPluginSystem_def)
  have nm: "name second_plugin = ''p''" by (simp add: second_plugin_def)
  note th = duplicate_use_rejected [OF slot reg, of "[]" "install second_plugin"]
  from th have u: "use second_plugin [] ?s1
      = (Inr (), ?s1\<lparr>warnings := warnings ?s1 @ [already_registered (name second_plugin)]\<rparr>)"
    by (rule conjunct1)
  from th have g: "getPlugin (name second_plugin) (snd (use second_plugin [] ?s1))
      = Inr (Some first_plugin)"
    by blast
  have a: "fst (use second_plugin [] ?s1) = Inr ()" by (simp add: u)
  have b: "effects (snd (use second_plugin [] ?s1)) = [''first'']" by (simp add: u eff)
  have c: "warnings (snd (use second_plugin [] ?s1)) = [already_registered ''p'']"
    by (simp add: u wrn nm)
  have d: "getPlugin ''p'' (snd (use second_plugin [] ?s1)) = Inr (Some first_plugin)"
    using g by (simp only: nm)
  show ?thesis by (intro conjI slot reg a b c d)
qed

lemma getPlugin_useMiddleware: "getPlugin key (snd (useMiddleware m s)) = getPlugin key s"
  by (simp add: useMiddleware_def getPlugin_def split: option.splits slot.splits)

lemma getPlugin_hook: "getPlugin key (snd (hook key' h s)) = getPlugin key s"
  by (simp add: hook_def getPlugin_def Let_def split: option.splits slot.splits)

lemma getPlugin_extend:
  "key' \<noteq> ''plugins'' \<Longrightarrow> getPlugin key (snd (extend key' v s)) = getPlugin key s"
  by (cases v) (simp_all add: extend_def assign_def getPlugin_def warn_def Let_def)

lemma getPlugin_update_plugins:
  assumes "getPlugin key s = Inr (Some p)" and "\<And>reg. reg key = Some p \<Longrightarrow> f reg key = Some p"
  shows "getPlugin key (snd (update_plugins f s)) = Inr (Some p)"
  using assms
  by (auto simp: getPlugin_def update_plugins_def split: option.splits slot.splits)

lemma run_keeps_entry:
  assumes nxt: "\<And>d s. getPlugin key s = Inr (Some p) \<Longrightarrow> getPlugin key (snd (nxt d s)) = Inr (Some p)"
  shows "\<not> tampers key body \<Longrightarrow> getPlugin key s = Inr (Some p) \<Longrightarrow>
         getPlugin key (snd (run nxt body s)) = Inr (Some p)"
proof (induction body arbitrary: s)
  case (Effect l k)
  have "getPlugin key (s\<lparr>effects := effects s @ [l]\<rparr>) = Inr (Some p)"
    using Effect.prems(2) by (simp add: getPlugin_def)
  then have "getPlugin key (snd (run nxt k (s\<lparr>effects := effects s @ [l]\<rparr>))) = Inr (Some p)"
    using Effect.prems(1) by (intro Effect.IH) simp_all
  then show ?case by simp
next
  case (Next d k)
  obtain out s1 where a: "nxt d s = (out, s1)" by (cases "nxt d s")
  have "getPlugin key s1 = Inr (Some p)" using nxt [OF Next.prems(2), of d] a by simp
  moreover have "\<not> tampers key (k out)" using Next.prems(1) by auto
  ultimately have "getPlugin key (snd (run nxt (k out) s1)) = Inr (Some p)"
    by (intro Next.IH) simp_all
  then show ?case using a by simp
next
  case (UseMiddleware m k)
  obtain out s1 where a: "useMiddleware m s = (out, s1)" by (cases "useMiddleware m s")
  have "getPlugin key s1 = Inr (Some p)"
    using getPlugin_useMiddleware [of key m s] a UseMiddleware.prems(2) by simp
  then have "getPlugin key (snd (run nxt k s1)) = Inr (Some p)"
    using UseMiddleware.prems(1) by (intro UseMiddleware.IH(2)) simp_all
  then show ?case using a \<open>getPlugin key s1 = Inr (Some p)\<close> by (cases out) simp_all
next
  case (Hook key' h k)
  obtain out s1 where a: "hook key' h s = (out, s1)" by (cases "hook key' h s")
  have s1: "getPlugin key s1 = Inr (Some p)"
    using getPlugin_hook [of key key' h s] a Hook.prems(2) by simp
  then have "getPlugin key (snd (run nxt k s1)) = Inr (Some p)"
    using Hook.prems(1) by (intro Hook.IH(2)) simp_all
  then show ?case using a s1 by (cases out) simp_all
next
  case (Extend key' v k)
  then have ne: "key' \<noteq> ''plugins''" and k: "\<not> tampers key k" by auto
  have "getPlugin key (snd (extend key' v s)) = Inr (Some p)"
    using getPlugin_extend [OF ne, of key v s] Extend.prems(2) by simp
  then have "getPlugin key (snd (run nxt k (snd (extend key' v s)))) = Inr (Some p)"
    using k by (intro Extend.IH) simp_all
  then show ?case by (simp add: run_Extend del: run.simps(7))
next
  case (PluginsSet key' n i k)
  let ?f = "\<lambda>reg. reg(key' \<mapsto> \<lparr>name = n, install = i\<rparr>)"
  from PluginsSet.prems(1) have ne: "key' \<noteq> key" and k: "\<not> tampers key k" by auto
  obtain out s1 where a: "update_plugins ?f s = (out, s1)" by (cases "update_plugins ?f s")
  have s1: "getPlugin key s1 = Inr (Some p)"
    using getPlugin_update_plugins [OF PluginsSet.prems(2), of ?f] ne a by simp
  then have "getPlugin key (snd (run nxt k s1)) = Inr (Some p)"
    using k by (intro PluginsSet.IH(2)) simp_all
  then show ?case using a s1 by (cases out) simp_all
next
  case (PluginsDelete key' k)
  let ?f = "\<lambda>reg. reg(key' := None)"
  from PluginsDelete.prems(1) have ne: "key' \<noteq> key" and k: "\<not> tampers key k" by auto
  obtain out s1 where a: "update_plugins ?f s = (out, s1)" by (cases "update_plugins ?f s")
  have s1: "getPlugin key s1 = Inr (Some p)"
    using getPlugin_update_plugins [OF PluginsDelete.prems(2), of ?f] ne a by simp
  then have "getPlugin key (snd (run nxt k s1)) = Inr (Some p)"
    using k by (intro PluginsDelete.IH) simp_all
  then show ?case using a s1 by (cases out) simp_all
next
  case (Assign key' v k)
  from Assign.prems(1) have ne: "key' \<noteq> ''plugins''" and k: "\<not> tampers key k" by auto
  have "getPlugin key (assign key' v s) = Inr (Some p)"
    using ne Assign.prems(2) by (cases v) (simp_all add: assign_def getPlugin_def)
  then have "getPlugin key (snd (run nxt k (assign key' v s))) = Inr (Some p)"
    using k by (intro Assign.IH) simp_all
  then show ?case by simp
next
  case (Delete key' k)
  from Delete.prems(1) have ne: "key' \<noteq> ''plugins''" and k: "\<not> tampers key k" by auto
  have "getPlugin key (s\<lparr>ctx := (ctx s)(key' := None)\<rparr>) = Inr (Some p)"
    using ne Delete.prems(2) by (simp add: getPlugin_def)
  then have "getPlugin key (snd (run nxt k (s\<lparr>ctx := (ctx s)(key' := None)\<rparr>))) = Inr (Some p)"
    using k by (intro Delete.IH) simp_all
  then show ?case by simp
qed simp_all

text \<open>
  Claim C5, as amended. Let \<open>p\<close> have a name the registry does not hold, and let its
  \<open>install\<close>, run in the context where \<open>p\<close> is recorded, throw \<open>e\<close> and leave the world
  \<open>s'\<close>. Then \<open>use p\<close> throws \<open>e\<close> and leaves \<open>s'\<close>: the exception is not caught, and
  nothing is undone. \<open>p\<close> is recorded when \<open>install\<close> starts; after the throw \<open>getPlugin\<close>
  returns \<open>p\<close>, provided \<open>install\<close> did not itself tamper with the registry: it did not
  overwrite the property \<^verbatim>\<open>plugins\<close> of the context, delete or replace the entry of
  \<open>p\<close>, or clear the registry.
\<close>

theorem install_throw_propagates:
  assumes "ctx s ''plugins'' = Some (Plugins reg)" and "reg (name p) = None"
      and "run no_next (install p opts)
             (s\<lparr>ctx := (ctx s)(''plugins'' \<mapsto> Plugins (reg(name p \<mapsto> p)))\<rparr>) = (Inl e, s')"
  shows "use p opts s = (Inl e, s')
       \<and> getPlugin (name p) (s\<lparr>ctx := (ctx s)(''plugins'' \<mapsto> Plugins (reg(name p \<mapsto> p)))\<rparr>)
           = Inr (Some p)
       \<and> (\<not> tampers (name p) (install p opts) \<longrightarrow> getPlugin (name p) s' = Inr (Some p))"
proof -
  let ?s1 = "s\<lparr>ctx := (ctx s)(''plugins'' \<mapsto> Plugins (reg(name p \<mapsto> p)))\<rparr>"
  have a: "use p opts s = (Inl e, s')"
    using assms by (simp add: use_def)
  have b: "getPlugin (name p) ?s1 = Inr (Some p)"
    by (simp add: getPlugin_def)
  have c: "getPlugin (name p) s' = Inr (Some p)" if "\<not> tampers (name p) (install p opts)"
  proof -
    have "getPlugin (name p) (snd (run no_next (install p opts) ?s1)) = Inr (Some p)"
      using that b by (intro run_keeps_entry) (simp_all add: no_next_def)
    then show ?thesis using assms(3) by simp
  qed
  show ?thesis using a b c by blast
qed

text \<open>
  The claim is false as it was stated, for every plugin: \<open>install\<close> is handed the
  context, whose registry nothing guards, and an \<open>install\<close> that deletes its own entry
  before it throws leaves a registry where \<open>getPlugin\<close> finds nothing.
\<close>

theorem install_throw_propagates_counterexample:
  "ctx (createPluginSystem (0::nat)) ''plugins'' = Some (Plugins Map.empty)
   \<and> fst (use unregistering_plugin [] (createPluginSystem 0)) = Inl (Thrown 1)
   \<and> getPlugin (name unregistering_plugin) (snd (use unregistering_plugin [] (createPluginSystem 0)))
        = Inr None
   \<and> getPlugin (name unregistering_plugin) (snd (use unregistering_plugin [] (createPluginSystem 0)))
        \<noteq> Inr (Some unregistering_plugin)"
  by (simp add: use_def createPluginSystem_def unregistering_plugin_def no_next_def
      update_plugins_def getPlugin_def)

text \<open>
  \<open>failing_plugin\<close> extends the context, deletes another entry of the registry, counts,
  and throws: \<open>use\<close> throws the same value, what \<open>install\<close> did stays, and the plugin is
  registered.
\<close>

theorem install_throw_propagates_witness:
  "ctx (createPluginSystem (0::nat)) ''plugins'' = Some (Plugins Map.empty)
   \<and> Map.empty (name failing_plugin) = (None :: nat plugin option)
   \<and> fst (use failing_plugin [] (createPluginSystem 0)) = Inl (Thrown 1)
   \<and> effects (snd (use failing_plugin [] (createPluginSystem 0))) = [''half'']
   \<and> ctx (snd (use failing_plugin [] (createPluginSystem 0))) ''log'' = Some (Value (Primitive 5))
   \<and> \<not> tampers (name failing_plugin) (install failing_plugin [])
   \<and> getPlugin ''f'' (snd (use failing_plugin [] (createPluginSystem 0))) = Inr (Some failing_plugin)"
proof -
  let ?s = "createPluginSystem (0::nat)"
  let ?s1 = "?s\<lparr>ctx := (ctx ?s)(''plugins'' \<mapsto> Plugins (Map.empty(name failing_plugin \<mapsto> failing_plugin)))\<rparr>"
  let ?r = "run no_next (install failing_plugin []) ?s1"
  have slot: "ctx ?s ''plugins'' = Some (Plugins Map.empty)"
    by (simp add: createPluginSystem_def)
  have fresh: "Map.empty (name failing_plugin) = (None :: nat plugin option)" by simp
  have nm: "name failing_plugin = ''f''" by (simp add: failing_plugin_def)
  have inst: "install failing_plugin []
      = Extend ''log'' (Primitive 5) (PluginsDelete ''old'' (Effect ''half'' (Throw (Thrown 1))))"
    by (simp add: failing_plugin_def)
  have r1: "fst ?r = Inl (Thrown 1)" and r2: "effects (snd ?r) = [''half'']"
    and r3: "ctx (snd ?r) ''log'' = Some (Value (Primitive 5))"
    by (simp_all add: inst extend_def assign_def in_context_def inherited_def
        object_prototype_names_def update_plugins_def createPluginSystem_def)
  have body: "?r = (Inl (Thrown 1), snd ?r)"
    using r1 by (simp add: prod_eq_iff)
  have safe: "\<not> tampers (name failing_plugin) (install failing_plugin [])"
    by (simp add: inst nm)
  note th = install_throw_propagates [OF slot fresh body]
  from th have u: "use failing_plugin [] ?s = (Inl (Thrown 1), snd ?r)" by (rule conjunct1)
  from th safe have g: "getPlugin (name failing_plugin) (snd ?r) = Inr (Some failing_plugin)"
    by blast
  have a: "fst (use failing_plugin [] ?s) = Inl (Thrown 1)" by (simp only: u fst_conv)
  have b: "effects (snd (use failing_plugin [] ?s)) = [''half'']" by (simp only: u snd_conv r2)
  have c: "ctx (snd (use failing_plugin [] ?s)) ''log'' = Some (Value (Primitive 5))"
    by (simp only: u snd_conv r3)
  have d: "getPlugin ''f'' (snd (use failing_plugin [] ?s)) = Inr (Some failing_plugin)"
    using g by (simp only: u snd_conv nm)
  show ?thesis by (intro conjI slot fresh a b c safe d)
qed

subsection \<open>Hooks\<close>



















subsection \<open>Extending the context\<close>






end
